theory Spec2Isabelle
  imports Main
begin

section \<open>The Sphinx configuration of weldx (doc/conf.py)\<close>

text \<open>
  The configuration file is a Python module that Sphinx executes once. Three of its
  blocks do more than assign constants: \<^verbatim>\<open>_copy_tut_files\<close> stages the tutorial
  notebooks, \<^verbatim>\<open>_get_intersphinx_mapping\<close> assembles the cross-reference table from
  the version strings of imported libraries, and the loop at the end of the file reads
  the flat text file \<^verbatim>\<open>nitpick_ignore\<close> into a list of pairs. Each block is
  embedded as a function of the part of the environment it reads; an exception that
  the block lets escape is a value of type \<open>error\<close>.

  Text is a list of characters. A \<open>char\<close> stands for the code point of the same
  number, so the embedding covers text whose code points are below 256.
\<close>

subsection \<open>Exceptions\<close>

text \<open>
  The exceptions that the module lets escape. \<^verbatim>\<open>ModuleNotFoundError\<close> carries the
  name of the module that was not found and \<^verbatim>\<open>FileNotFoundError\<close> the name of the
  file; of the other three only the class is kept.
\<close>

datatype error =
    ModuleNotFoundError string
  | FileNotFoundError string
  | ValueError
  | IsADirectoryError
  | PermissionError

subsection \<open>The string methods the parsing loop calls\<close>

text \<open>
  \<^verbatim>\<open>str.isspace\<close> for one character: the code points below 256 that Python
  classifies as whitespace are TAB, LF, VT, FF, CR, the separators 0x1C to 0x1F, the
  space, NEL (0x85) and the no-break space (0xA0).
\<close>

definition isspace :: "char \<Rightarrow> bool" where
  "isspace c = (c \<in> set [CHR 0x09, CHR 0x0A, CHR 0x0B, CHR 0x0C, CHR 0x0D,
                          CHR 0x1C, CHR 0x1D, CHR 0x1E, CHR 0x1F, CHR 0x20,
                          CHR 0x85, CHR 0xA0])"

text \<open>\<^verbatim>\<open>s.strip()\<close>: whitespace removed at both ends.\<close>

definition strip :: "string \<Rightarrow> string" where
  "strip s = rev (dropWhile isspace (rev (dropWhile isspace s)))"

text \<open>\<^verbatim>\<open>s.startswith(p)\<close>.\<close>

definition startswith :: "string \<Rightarrow> string \<Rightarrow> bool" where
  "startswith s p = (take (length p) s = p)"

text \<open>
  \<^verbatim>\<open>s.split(None, maxsplit)\<close> for \<open>maxsplit \<ge> 0\<close>. As long as splits remain,
  leading whitespace is skipped and the longest run of non-whitespace characters is
  one field. When no split remains, the whitespace that follows is skipped and
  whatever is left, up to the end of the string, is the last field; an empty rest adds
  no field.
\<close>

fun split_None :: "string \<Rightarrow> nat \<Rightarrow> string list" where
  "split_None s 0 =
     (let r = dropWhile isspace s in if r = [] then [] else [r])"
| "split_None s (Suc maxsplit) =
     (let r = dropWhile isspace s in
      if r = [] then []
      else takeWhile (\<lambda>c. \<not> isspace c) r
             # split_None (dropWhile (\<lambda>c. \<not> isspace c) r) maxsplit)"

subsection \<open>Reading a text file line by line\<close>

text \<open>
  \<^verbatim>\<open>open(name)\<close> opens in text mode with universal newlines: on reading, the line
  endings CR LF and CR become LF.
\<close>

fun universal_newlines :: "string \<Rightarrow> string" where
  "universal_newlines [] = []"
| "universal_newlines [c] = (if c = CHR 0x0D then [CHR 0x0A] else [c])"
| "universal_newlines (c # d # cs) =
     (if c = CHR 0x0D then
        (if d = CHR 0x0A then CHR 0x0A # universal_newlines cs
         else CHR 0x0A # universal_newlines (d # cs))
      else c # universal_newlines (d # cs))"

text \<open>
  Iterating over the file object yields the lines with their terminating LF; a last
  line without LF is yielded as it is, and an empty rest yields nothing. The second
  argument is the part of the current line read so far.
\<close>

fun iter_lines :: "string \<Rightarrow> string \<Rightarrow> string list" where
  "iter_lines [] cur = (if cur = [] then [] else [cur])"
| "iter_lines (c # cs) cur =
     (if c = CHR 0x0A then (cur @ [c]) # iter_lines cs []
      else iter_lines cs (cur @ [c]))"

definition file_lines :: "string \<Rightarrow> string list" where
  "file_lines text = iter_lines (universal_newlines text) []"

subsection \<open>The ignore list (conf.py, lines 305 to 313)\<close>

text \<open>
  The loop body, with the list \<^verbatim>\<open>nitpick_ignore\<close> as accumulator. The unpacking
  \<^verbatim>\<open>dtype, target = line.split(None, 1)\<close> raises \<^verbatim>\<open>ValueError\<close> unless the split
  returns exactly two fields. Nothing catches the exception: the loop ends there, and
  the result keeps the list as it was when the exception was raised.
\<close>

fun nitpick_loop ::
  "string list \<Rightarrow> (string \<times> string) list \<Rightarrow> error option \<times> (string \<times> string) list"
where
  "nitpick_loop [] acc = (None, acc)"
| "nitpick_loop (line # rest) acc =
     (if strip line = [] \<or> startswith line ''#'' then nitpick_loop rest acc
      else
        (case split_None line 1 of
           [dtype, target] \<Rightarrow> nitpick_loop rest (acc @ [(dtype, strip target)])
         | _ \<Rightarrow> (Some ValueError, acc)))"

text \<open>
  The block as a whole: the list starts empty, \<^verbatim>\<open>open\<close> raises
  \<^verbatim>\<open>FileNotFoundError\<close> when the working directory has no file of that name, and
  otherwise the loop runs over the lines of the file. The argument maps the names of
  the text files in the working directory to their contents.
\<close>

definition nitpick_ignore ::
  "(string \<rightharpoonup> string) \<Rightarrow> error option \<times> (string \<times> string) list"
where
  "nitpick_ignore files =
     (case files ''nitpick_ignore'' of
        None \<Rightarrow> (Some (FileNotFoundError ''nitpick_ignore''), [])
      | Some text \<Rightarrow> nitpick_loop (file_lines text) [])"

subsection \<open>Staging the tutorial files (conf.py, lines 72 to 83)\<close>

text \<open>
  An entry of a directory is a regular file, with its contents and its permission
  bits (the number that \<^verbatim>\<open>stat.S_IMODE\<close> gives), or a directory. The source
  directory is the list of its entries, each under its name, in the order in which the
  operating system lists them; the destination directory is a map from names to
  entries.

  The process that loads the configuration owns the files and is not the superuser, so
  the owner's bits decide what it may open: \<open>0o400\<close> for reading and \<open>0o200\<close> for
  writing. Both directories exist and are different, and the process may create
  entries in the destination directory.
\<close>

datatype entry = File string nat | Directory

definition may_read :: "nat \<Rightarrow> bool" where
  "may_read mode = odd (mode div 256)"

definition may_write :: "nat \<Rightarrow> bool" where
  "may_write mode = odd (mode div 128)"

text \<open>
  \<^verbatim>\<open>Path.glob(pattern)\<close> yields the entries whose names match the pattern, whatever
  their kind. In the two patterns of this file the only wildcard is \<open>*\<close>, which stands
  for any run of characters, a leading dot included; every other character of a
  pattern matches itself.
\<close>

fun fnmatch :: "string \<Rightarrow> string \<Rightarrow> bool" where
  "fnmatch [] [] = True"
| "fnmatch (c # cs) [] = False"
| "fnmatch [] (p # ps) = (p = CHR ''*'' \<and> fnmatch [] ps)"
| "fnmatch (c # cs) (p # ps) =
     (if p = CHR ''*'' then fnmatch (c # cs) ps \<or> fnmatch cs (p # ps)
      else p = c \<and> fnmatch cs ps)"

definition glob :: "(string \<times> entry) list \<Rightarrow> string \<Rightarrow> (string \<times> entry) list" where
  "glob dir pattern = filter (\<lambda>(name, e). fnmatch name pattern) dir"

text \<open>
  \<^verbatim>\<open>shutil.copy(f, tutorials_dir)\<close> with a directory as target copies to the entry of
  the same name in it. It opens the source for reading, which raises
  \<^verbatim>\<open>IsADirectoryError\<close> for a directory and \<^verbatim>\<open>PermissionError\<close> for a file the
  process may not read. It then opens the target for writing, which raises
  \<^verbatim>\<open>IsADirectoryError\<close> when the entry is a directory and \<^verbatim>\<open>PermissionError\<close> when
  it is a file the process may not write; an entry that is not there is created. An
  exception leaves the destination as it was. Otherwise the target receives the
  contents of the source and then its permission bits.
\<close>

definition shutil_copy ::
  "string \<times> entry \<Rightarrow> (string \<rightharpoonup> entry) \<Rightarrow> error + (string \<rightharpoonup> entry)"
where
  "shutil_copy f dst =
     (case snd f of
        Directory \<Rightarrow> Inl IsADirectoryError
      | File contents mode \<Rightarrow>
          if \<not> may_read mode then Inl PermissionError
          else
            (case dst (fst f) of
               Some Directory \<Rightarrow> Inl IsADirectoryError
             | Some (File old old_mode) \<Rightarrow>
                 if may_write old_mode then Inr (dst(fst f \<mapsto> File contents mode))
                 else Inl PermissionError
             | None \<Rightarrow> Inr (dst(fst f \<mapsto> File contents mode))))"

text \<open>
  The loop \<^verbatim>\<open>for f in tutorial_files\<close>. Nothing catches an exception of the copy: the
  loop ends there, with the files before \<open>f\<close> copied and those after it not. The
  result is the exception, if any, and the destination directory as the loop left
  it.
\<close>

fun copy_loop ::
  "(string \<times> entry) list \<Rightarrow> (string \<rightharpoonup> entry) \<Rightarrow> error option \<times> (string \<rightharpoonup> entry)"
where
  "copy_loop [] dst = (None, dst)"
| "copy_loop (f # fs) dst =
     (case shutil_copy f dst of
        Inl e \<Rightarrow> (Some e, dst)
      | Inr dst' \<Rightarrow> copy_loop fs dst')"

definition copy_tut_files ::
  "(string \<times> entry) list \<Rightarrow> (string \<rightharpoonup> entry) \<Rightarrow> error option \<times> (string \<rightharpoonup> entry)"
where
  "copy_tut_files tutorials tutorials_dir =
     (let exts = [''*.ipynb'', ''*.py''];
          tutorial_files = fold (\<lambda>ext fs. fs @ glob tutorials ext) exts []
      in copy_loop tutorial_files tutorials_dir)"

subsection \<open>Imports\<close>

text \<open>
  What an import statement finds is a parameter: a table from the names of the
  importable modules, dotted names of submodules included, to their
  \<^verbatim>\<open>__version__\<close> strings.

  Importing \<^verbatim>\<open>a.b.c\<close> imports \<^verbatim>\<open>a\<close>, then \<^verbatim>\<open>a.b\<close>, then \<^verbatim>\<open>a.b.c\<close>. The first of
  them that the table does not have raises \<^verbatim>\<open>ModuleNotFoundError\<close> with that name.
  \<open>packages seen name\<close> lists these names for the part \<open>name\<close> of a dotted name that
  follows the part \<open>seen\<close>.
\<close>

fun packages :: "string \<Rightarrow> string \<Rightarrow> string list" where
  "packages seen [] = [seen]"
| "packages seen (c # cs) =
     (if c = CHR ''.'' then seen # packages (seen @ [c]) cs
      else packages (seen @ [c]) cs)"

fun import_chain :: "(string \<rightharpoonup> string) \<Rightarrow> string list \<Rightarrow> string \<Rightarrow> error + string" where
  "import_chain mods [] version = Inr version"
| "import_chain mods (name # names) version =
     (case mods name of
        None \<Rightarrow> Inl (ModuleNotFoundError name)
      | Some v \<Rightarrow> import_chain mods names v)"

text \<open>The import of a module, with the \<^verbatim>\<open>__version__\<close> of the module as result.\<close>

definition import_version :: "(string \<rightharpoonup> string) \<Rightarrow> string \<Rightarrow> error + string" where
  "import_version mods name = import_chain mods (packages [] name) []"

text \<open>A function body that only imports modules, one after the other.\<close>

fun import_all :: "(string \<rightharpoonup> string) \<Rightarrow> string list \<Rightarrow> error option" where
  "import_all mods [] = None"
| "import_all mods (name # names) =
     (case import_version mods name of
        Inl e \<Rightarrow> Some e
      | Inr v \<Rightarrow> import_all mods names)"

definition workaround_imports_typechecking :: "(string \<rightharpoonup> string) \<Rightarrow> error option" where
  "workaround_imports_typechecking mods =
     import_all mods [''ipywidgets'', ''meshio'', ''pandas'', ''pint'', ''sympy'', ''xarray'']"

definition prevent_sphinx_circular_imports_bug :: "(string \<rightharpoonup> string) \<Rightarrow> error option" where
  "prevent_sphinx_circular_imports_bug mods =
     import_all mods [''sphinx.builders.html'', ''sphinx.builders.latex'',
       ''sphinx.builders.texinfo'', ''sphinx.builders.text'', ''sphinx.ext.autodoc'']"

subsection \<open>The cross-reference mapping (conf.py, lines 265 to 298)\<close>

text \<open>
  The dictionary is an association list in insertion order; each value is the pair of
  a base URL and the inventory, which is \<^verbatim>\<open>None\<close> throughout. The six imports come
  first, in the order of the source, and the first one that fails ends the function.
\<close>

definition get_intersphinx_mapping ::
  "(string \<rightharpoonup> string) \<Rightarrow> error + (string \<times> string \<times> string option) list"
where
  "get_intersphinx_mapping mods =
     (case import_version mods ''asdf'' of Inl e \<Rightarrow> Inl e | Inr asdf_version \<Rightarrow>
      case import_version mods ''matplotlib'' of Inl e \<Rightarrow> Inl e | Inr matplotlib_version \<Rightarrow>
      case import_version mods ''numpy'' of Inl e \<Rightarrow> Inl e | Inr numpy_version \<Rightarrow>
      case import_version mods ''pandas'' of Inl e \<Rightarrow> Inl e | Inr pandas_version \<Rightarrow>
      case import_version mods ''pint'' of Inl e \<Rightarrow> Inl e | Inr pint_version \<Rightarrow>
      case import_version mods ''scipy'' of Inl e \<Rightarrow> Inl e | Inr scipy_version \<Rightarrow>
      Inr [(''python'', ''https://docs.python.org/3/'', None),
           (''numpy'', ''https://numpy.org/doc/'' @ take 4 numpy_version, None),
           (''pandas'',
              ''https://pandas.pydata.org/pandas-docs/version/'' @ pandas_version @ ''/'',
              None),
           (''xarray'', ''https://docs.xarray.dev/en/v2022.06.0/'', None),
           (''scipy'', ''https://docs.scipy.org/doc/scipy-'' @ scipy_version @ ''/'', None),
           (''matplotlib'', ''https://matplotlib.org/'' @ matplotlib_version, None),
           (''pint'', ''https://pint.readthedocs.io/en/'' @ pint_version, None),
           (''jsonschema'', ''https://python-jsonschema.readthedocs.io/en/stable/'', None),
           (''asdf'', ''https://asdf.readthedocs.io/en/'' @ asdf_version @ ''/'', None),
           (''networkx'', ''https://networkx.org/documentation/stable/'', None),
           (''IPython'', ''https://ipython.readthedocs.io/en/stable/'', None),
           (''k3d'', ''https://k3d-jupyter.org/'', None)])"

subsection \<open>Loading the configuration\<close>

text \<open>
  The environment of one load. \<open>modules\<close> is what an import finds at the start;
  \<open>modules_parent\<close> is what an import finds once the parent directory leads
  \<^verbatim>\<open>sys.path\<close>, which the fallback for a missing \<^verbatim>\<open>weldx\<close> arranges. \<open>tutorials\<close>
  lists the directory \<^verbatim>\<open>./../tutorials/\<close>, \<open>tutorials_dir\<close> is the directory the
  files are staged in, and \<open>files\<close> maps the names of the text files of the working
  directory to their contents.
\<close>

record environment =
  modules :: "string \<rightharpoonup> string"
  modules_parent :: "string \<rightharpoonup> string"
  tutorials :: "(string \<times> entry) list"
  tutorials_dir :: "string \<rightharpoonup> entry"
  files :: "string \<rightharpoonup> string"

text \<open>What a load that raises nothing leaves behind, as far as the blocks above go.\<close>

record conf =
  conf_tutorials_dir :: "string \<rightharpoonup> entry"
  conf_intersphinx_mapping :: "(string \<times> string \<times> string option) list"
  conf_nitpick_ignore :: "(string \<times> string) list"

text \<open>
  \<^verbatim>\<open>import weldx\<close> with its fallback (lines 58 to 62): when the import raises
  \<^verbatim>\<open>ModuleNotFoundError\<close>, the parent directory is put in front of \<^verbatim>\<open>sys.path\<close> and
  the import is tried again, this time unguarded. The result is the table that the
  imports after it see.
\<close>

definition import_weldx :: "environment \<Rightarrow> error + (string \<rightharpoonup> string)" where
  "import_weldx env =
     (case import_version (modules env) ''weldx'' of
        Inr v \<Rightarrow> Inr (modules env)
      | Inl e \<Rightarrow>
          (case import_version (modules_parent env) ''weldx'' of
             Inr v \<Rightarrow> Inr (modules_parent env)
           | Inl e' \<Rightarrow> Inl e'))"

text \<open>
  The module from top to bottom. No statement of it stands in a handler other than the
  first import of \<^verbatim>\<open>weldx\<close>, so the first exception ends the load. The imports of
  the standard library and of the Sphinx logger at the top are taken to succeed, and
  the assignments of constants between the blocks raise nothing; both are left out.
\<close>

definition conf_py :: "environment \<Rightarrow> error + conf" where
  "conf_py env =
     (case prevent_sphinx_circular_imports_bug (modules env) of Some e \<Rightarrow> Inl e | None \<Rightarrow>
      case workaround_imports_typechecking (modules env) of Some e \<Rightarrow> Inl e | None \<Rightarrow>
      case import_weldx env of Inl e \<Rightarrow> Inl e | Inr mods \<Rightarrow>
      case import_version mods ''weldx.visualization'' of Inl e \<Rightarrow> Inl e | Inr v \<Rightarrow>
      case copy_tut_files (tutorials env) (tutorials_dir env) of
        (Some e, staged) \<Rightarrow> Inl e
      | (None, staged) \<Rightarrow>
      case get_intersphinx_mapping mods of Inl e \<Rightarrow> Inl e | Inr mapping \<Rightarrow>
      case nitpick_ignore (files env) of
        (Some e, ignored) \<Rightarrow> Inl e
      | (None, ignored) \<Rightarrow>
          Inr \<lparr>conf_tutorials_dir = staged,
               conf_intersphinx_mapping = mapping,
               conf_nitpick_ignore = ignored\<rparr>)"

section \<open>Properties\<close>

subsection \<open>The lines of a file\<close>

text \<open>
  The lines yielded for a text are the text cut into pieces: put together again they
  are the text after newline translation, and none of them is empty.
\<close>

lemma concat_iter_lines: "concat (iter_lines cs cur) = cur @ cs"
  by (induction cs arbitrary: cur) simp_all

lemma concat_file_lines: "concat (file_lines text) = universal_newlines text"
  by (simp add: file_lines_def concat_iter_lines)

lemma iter_lines_nonempty: "l \<in> set (iter_lines cs cur) \<Longrightarrow> l \<noteq> []"
  by (induction cs arbitrary: cur) (auto split: if_splits)

lemma file_lines_nonempty: "l \<in> set (file_lines text) \<Longrightarrow> l \<noteq> []"
  unfolding file_lines_def by (rule iter_lines_nonempty)

subsection \<open>Trimming and splitting\<close>

lemma strip_Nil_iff: "strip s = [] \<longleftrightarrow> (\<forall>c\<in>set s. isspace c)"
proof -
  have "(\<forall>c\<in>set (dropWhile isspace s). isspace c) \<longleftrightarrow> (\<forall>c\<in>set s. isspace c)"
  proof
    assume a: "\<forall>c\<in>set (dropWhile isspace s). isspace c"
    have "set s = set (takeWhile isspace s) \<union> set (dropWhile isspace s)"
      by (metis set_append takeWhile_dropWhile_id)
    with a show "\<forall>c\<in>set s. isspace c"
      by (auto dest: set_takeWhileD)
  next
    assume "\<forall>c\<in>set s. isspace c"
    then show "\<forall>c\<in>set (dropWhile isspace s). isspace c"
      by (auto dest: set_dropWhileD)
  qed
  then show ?thesis
    by (simp add: strip_def dropWhile_eq_Nil_conv)
qed

lemma strip_Nil_dropWhile: "strip s = [] \<longleftrightarrow> dropWhile isspace s = []"
  by (simp add: strip_Nil_iff dropWhile_eq_Nil_conv)

lemma strip_dropWhile: "strip (dropWhile isspace s) = strip s"
  by (simp add: strip_def)

lemma strip_lead: "\<forall>c\<in>set lead. isspace c \<Longrightarrow> strip (lead @ s) = strip s"
  by (simp add: strip_def)

lemma strip_decomp:
  "\<exists>a b. s = a @ strip s @ b \<and> (\<forall>c\<in>set a. isspace c) \<and> (\<forall>c\<in>set b. isspace c)"
proof -
  define d where "d = dropWhile isspace s"
  define r where "r = rev d"
  have "rev (dropWhile isspace r) @ rev (takeWhile isspace r) = rev r"
    by (metis rev_append takeWhile_dropWhile_id)
  then have "d = strip s @ rev (takeWhile isspace r)"
    by (simp add: strip_def r_def d_def)
  then have "s = takeWhile isspace s @ strip s @ rev (takeWhile isspace r)"
    by (metis d_def takeWhile_dropWhile_id)
  moreover have "\<forall>c\<in>set (takeWhile isspace s). isspace c"
    by (auto dest: set_takeWhileD)
  moreover have "\<forall>c\<in>set (rev (takeWhile isspace r)). isspace c"
    by (auto dest: set_takeWhileD)
  ultimately show ?thesis by blast
qed

lemma strip_ends:
  assumes "strip s \<noteq> []"
  shows "\<not> isspace (hd (strip s))" and "\<not> isspace (last (strip s))"
proof -
  define d where "d = dropWhile isspace s"
  define e where "e = dropWhile isspace (rev d)"
  have se: "strip s = rev e" by (simp add: strip_def d_def e_def)
  with assms have ene: "e \<noteq> []" by simp
  then have "\<not> isspace (hd e)" unfolding e_def by (rule hd_dropWhile)
  then show "\<not> isspace (last (strip s))"
    using ene by (simp add: se last_rev)
  have dne: "d \<noteq> []" using ene by (auto simp: e_def)
  then have hd: "\<not> isspace (hd d)" unfolding d_def by (rule hd_dropWhile)
  obtain p where p: "rev d = p @ e"
    by (metis e_def takeWhile_dropWhile_id)
  then have "d = rev e @ rev p" by (metis rev_append rev_rev_ident)
  then have "hd d = hd (rev e)" using ene by simp
  with hd show "\<not> isspace (hd (strip s))" by (simp add: se)
qed

lemma strip_body:
  assumes "\<forall>c\<in>set a. isspace c" "\<forall>c\<in>set b. isspace c" "m \<noteq> []"
    "\<not> isspace (hd m)" "\<not> isspace (last m)"
  shows "strip (a @ m @ b) = m"
proof -
  have 1: "dropWhile isspace (a @ m @ b) = m @ b"
    using assms by (cases m) simp_all
  have "dropWhile isspace (rev b @ rev m) = dropWhile isspace (rev m)"
    by (rule dropWhile_append2) (use assms in auto)
  also have "\<dots> = rev m"
    using assms by (cases m rule: rev_cases) simp_all
  finally have 2: "dropWhile isspace (rev b @ rev m) = rev m" .
  show ?thesis by (simp add: strip_def 1 2)
qed

lemma strip_idem: "strip (strip s) = strip s"
proof (cases "strip s = []")
  case True
  have "strip [] = []" by (simp add: strip_def)
  with True show ?thesis by simp
next
  case False
  then show ?thesis
    using strip_body [of "[]" "[]" "strip s"] strip_ends [of s] by simp
qed

lemma split_None_1:
  assumes "\<forall>c\<in>set lead. isspace c" "tok \<noteq> []" "\<forall>c\<in>set tok. \<not> isspace c"
    "tail = [] \<or> isspace (hd tail)"
  shows "split_None (lead @ tok @ tail) 1 =
           (if strip tail = [] then [tok] else [tok, dropWhile isspace tail])"
proof -
  have 1: "dropWhile isspace (lead @ tok @ tail) = tok @ tail"
    using assms by (cases tok) simp_all
  have 2: "takeWhile (\<lambda>c. \<not> isspace c) (tok @ tail) = tok"
    using assms by (cases tail) simp_all
  have 3: "dropWhile (\<lambda>c. \<not> isspace c) (tok @ tail) = tail"
    using assms by (cases tail) simp_all
  have "split_None (lead @ tok @ tail) (Suc 0) =
        tok # split_None tail 0"
    using assms(2) by (simp add: 1 2 3 Let_def del: split_None.simps(1))
  then show ?thesis
    by (simp add: strip_Nil_dropWhile Let_def)
qed

lemma line_shape:
  assumes "strip l \<noteq> []"
  shows "\<exists>lead tok tail. l = lead @ tok @ tail \<and> (\<forall>c\<in>set lead. isspace c) \<and> tok \<noteq> [] \<and>
           (\<forall>c\<in>set tok. \<not> isspace c) \<and> (tail = [] \<or> isspace (hd tail))"
proof -
  define d where "d = dropWhile isspace l"
  have dne: "d \<noteq> []" using assms by (simp add: strip_Nil_dropWhile d_def)
  then have hd: "\<not> isspace (hd d)" unfolding d_def by (rule hd_dropWhile)
  define tok where "tok = takeWhile (\<lambda>c. \<not> isspace c) d"
  define tail where "tail = dropWhile (\<lambda>c. \<not> isspace c) d"
  have "l = takeWhile isspace l @ tok @ tail"
    by (simp add: tok_def tail_def d_def)
  moreover have "\<forall>c\<in>set (takeWhile isspace l). isspace c"
    by (auto dest: set_takeWhileD)
  moreover have "tok \<noteq> []"
    using dne hd by (cases d) (simp_all add: tok_def)
  moreover have "\<forall>c\<in>set tok. \<not> isspace c"
    by (auto simp: tok_def dest: set_takeWhileD)
  moreover have "tail = [] \<or> isspace (hd tail)"
    using hd_dropWhile [of "\<lambda>c. \<not> isspace c" d] by (auto simp: tail_def)
  ultimately show ?thesis by blast
qed

subsection \<open>The parsing loop, line by line\<close>

lemma startswith_hash: "startswith l ''#'' \<longleftrightarrow> (\<exists>r. l = CHR ''#'' # r)"
  by (cases l) (simp_all add: startswith_def)

lemma nitpick_loop_skip:
  "list_all isspace l \<or> startswith l ''#'' \<Longrightarrow> nitpick_loop (l # rest) acc = nitpick_loop rest acc"
  by (auto simp: strip_Nil_iff list_all_iff)

lemma nitpick_loop_line:
  assumes "\<forall>c\<in>set lead. isspace c" "tok \<noteq> []" "\<forall>c\<in>set tok. \<not> isspace c"
    "tail = [] \<or> isspace (hd tail)" "\<not> startswith (lead @ tok @ tail) ''#''"
  shows "nitpick_loop ((lead @ tok @ tail) # rest) acc =
           (if strip tail = [] then (Some ValueError, acc)
            else nitpick_loop rest (acc @ [(tok, strip tail)]))"
proof -
  have "strip (lead @ tok @ tail) \<noteq> []"
    using assms(2,3) by (cases tok) (auto simp: strip_Nil_iff)
  then show ?thesis
    using assms(5) split_None_1 [OF assms(1-4)]
    by (simp add: strip_dropWhile)
qed

lemma nitpick_loop_append:
  "nitpick_loop (xs @ ys) acc =
     (case nitpick_loop xs acc of
        (None, acc') \<Rightarrow> nitpick_loop ys acc'
      | (Some e, acc') \<Rightarrow> (Some e, acc'))"
  by (induction xs arbitrary: acc) (auto split: list.splits)

lemma nitpick_loop_filter:
  "nitpick_loop (filter (\<lambda>l. \<not> (list_all isspace l \<or> startswith l ''#'')) ls) acc = nitpick_loop ls acc"
proof (induction ls arbitrary: acc)
  case Nil
  show ?case by simp
next
  case (Cons l ls)
  show ?case
  proof (cases "list_all isspace l \<or> startswith l ''#''")
    case True
    have "nitpick_loop (filter (\<lambda>l. \<not> (list_all isspace l \<or> startswith l ''#'')) (l # ls)) acc
          = nitpick_loop ls acc"
      using True Cons.IH by (auto simp del: nitpick_loop.simps)
    then show ?thesis
      by (simp only: nitpick_loop_skip [OF True])
  next
    case False
    then have "strip l \<noteq> []" "\<not> startswith l ''#''"
      by (auto simp: strip_Nil_iff list_all_iff)
    then show ?thesis using False Cons.IH
      by (simp split: list.splits)
  qed
qed

lemma separator_tail:
  assumes "\<forall>c\<in>set lead. isspace c" "tok \<noteq> []" "\<forall>c\<in>set tok. \<not> isspace c"
    "tail = [] \<or> isspace (hd tail)"
  shows "list_ex isspace (strip (lead @ tok @ tail)) \<longleftrightarrow> strip tail \<noteq> []"
proof
  assume ex: "list_ex isspace (strip (lead @ tok @ tail))"
  show "strip tail \<noteq> []"
  proof
    assume "strip tail = []"
    then have "\<forall>c\<in>set tail. isspace c" by (simp add: strip_Nil_iff)
    then have "strip (lead @ tok @ tail) = tok"
      using assms(1-3) by (intro strip_body) auto
    with ex assms(3) show False by (simp add: list_ex_iff)
  qed
next
  assume ne: "strip tail \<noteq> []"
  obtain a b where ab: "tail = a @ strip tail @ b" "\<forall>c\<in>set a. isspace c" "\<forall>c\<in>set b. isspace c"
    using strip_decomp by blast
  have "tok @ a @ strip tail \<noteq> []" using assms(2) by simp
  have hdm: "hd (tok @ a @ strip tail) = hd tok" using assms(2) by simp
  have lastm: "last (tok @ a @ strip tail) = last (strip tail)" using ne by simp
  have "strip (lead @ (tok @ a @ strip tail) @ b) = tok @ a @ strip tail"
    using assms(1-3) ab(2,3) ne strip_ends [OF ne]
    by (intro strip_body) (auto simp: hdm lastm simp del: hd_append2 last_appendR)
  then have *: "strip (lead @ tok @ tail) = tok @ a @ strip tail"
    using ab(1) by (metis append.assoc)
  show "list_ex isspace (strip (lead @ tok @ tail))"
  proof (cases "a = []")
    case True
    with ab(1) ne have "hd tail = hd (strip tail)" "tail \<noteq> []"
      by (metis append_Nil hd_append2, metis append_Nil append_is_Nil_conv)
    with assms(4) strip_ends(1) [OF ne] show ?thesis by simp
  next
    case False
    then show ?thesis using ab(2) by (cases a) (auto simp: * list_ex_iff)
  qed
qed

subsection \<open>Files of well-formed lines\<close>

lemma well_formed_step:
  assumes "\<not> list_all isspace l" "\<not> startswith l ''#''" "list_ex isspace (strip l)"
  shows "\<exists>d t. (\<forall>rest acc. nitpick_loop (l # rest) acc = nitpick_loop rest (acc @ [(d, t)])) \<and>
           d \<noteq> [] \<and> t \<noteq> [] \<and> strip d = d \<and> strip t = t"
proof -
  have "strip l \<noteq> []" using assms(1) by (simp add: strip_Nil_iff list_all_iff)
  then obtain lead tok tail where sh: "l = lead @ tok @ tail" "\<forall>c\<in>set lead. isspace c"
      "tok \<noteq> []" "\<forall>c\<in>set tok. \<not> isspace c" "tail = [] \<or> isspace (hd tail)"
    using line_shape by blast
  have ne: "strip tail \<noteq> []"
    using assms(3) separator_tail [OF sh(2-5)] by (simp add: sh(1))
  have step: "\<forall>rest acc. nitpick_loop (l # rest) acc = nitpick_loop rest (acc @ [(tok, strip tail)])"
    using nitpick_loop_line [OF sh(2-5)] assms(2) ne by (simp add: sh(1))
  have "strip tok = tok"
    using strip_body [of "[]" "[]" tok] sh(3,4) by simp
  with step ne sh(3) show ?thesis
    using strip_idem by blast
qed

lemma well_formed_lines:
  assumes "\<forall>l\<in>set ls. \<not> list_all isspace l \<and> \<not> startswith l ''#'' \<and> list_ex isspace (strip l)"
  shows "\<exists>ps. length ps = length ls \<and>
           (\<forall>acc. nitpick_loop ls acc = (None, acc @ ps)) \<and>
           (\<forall>i<length ls. \<forall>rest acc. nitpick_loop (ls ! i # rest) acc = nitpick_loop rest (acc @ [ps ! i])) \<and>
           (\<forall>p\<in>set ps. fst p \<noteq> [] \<and> snd p \<noteq> [] \<and> strip (fst p) = fst p \<and> strip (snd p) = snd p)"
  using assms
proof (induction ls)
  case Nil
  show ?case by simp
next
  case (Cons l ls)
  then obtain ps where ps: "length ps = length ls"
      "\<forall>acc. nitpick_loop ls acc = (None, acc @ ps)"
      "\<forall>i<length ls. \<forall>rest acc. nitpick_loop (ls ! i # rest) acc = nitpick_loop rest (acc @ [ps ! i])"
      "\<forall>p\<in>set ps. fst p \<noteq> [] \<and> snd p \<noteq> [] \<and> strip (fst p) = fst p \<and> strip (snd p) = snd p"
    by auto
  from Cons.prems obtain d t where dt:
      "\<forall>rest acc. nitpick_loop (l # rest) acc = nitpick_loop rest (acc @ [(d, t)])"
      "d \<noteq> []" "t \<noteq> []" "strip d = d" "strip t = t"
    using well_formed_step [of l] by auto
  have 1: "length ((d, t) # ps) = length (l # ls)" using ps(1) by simp
  have 2: "\<forall>acc. nitpick_loop (l # ls) acc = (None, acc @ (d, t) # ps)"
    using dt(1) ps(2) by (simp del: nitpick_loop.simps)
  have 3: "\<forall>i<length (l # ls). \<forall>rest acc.
        nitpick_loop ((l # ls) ! i # rest) acc = nitpick_loop rest (acc @ [((d, t) # ps) ! i])"
  proof (intro allI impI)
    fix i rest acc
    assume "i < length (l # ls)"
    then show "nitpick_loop ((l # ls) ! i # rest) acc = nitpick_loop rest (acc @ [((d, t) # ps) ! i])"
      using dt(1) ps(3) by (cases i) (simp_all del: nitpick_loop.simps)
  qed
  have 4: "\<forall>p\<in>set ((d, t) # ps). fst p \<noteq> [] \<and> snd p \<noteq> [] \<and> strip (fst p) = fst p \<and> strip (snd p) = snd p"
    using dt(2-5) ps(4) by simp
  from 1 2 3 4 show ?case by blast
qed

text \<open>
  Claim C1. A line is well-formed when it is not blank, does not start with \<open>#\<close> and,
  once trimmed, still contains whitespace: the separator between its two fields. When
  every line of the ignore-list file is well-formed, reading the file raises nothing
  and yields as many pairs as the file has lines; the pair at position \<open>i\<close> is the
  pair that line \<open>i\<close> alone yields, so the pairs stand in file order; and both fields
  of every pair are non-empty and unchanged by trimming, that is, without leading or
  trailing whitespace.
\<close>

theorem nitpick_ignore_well_formed:
  assumes "fs ''nitpick_ignore'' = Some text"
    and "\<forall>l\<in>set (file_lines text).
           \<not> list_all isspace l \<and> \<not> startswith l ''#'' \<and> list_ex isspace (strip l)"
  shows "\<exists>ps. nitpick_ignore fs = (None, ps) \<and>
           length ps = length (file_lines text) \<and>
           (\<forall>i<length ps. nitpick_loop [file_lines text ! i] [] = (None, [ps ! i])) \<and>
           (\<forall>p\<in>set ps. fst p \<noteq> [] \<and> snd p \<noteq> [] \<and>
                        strip (fst p) = fst p \<and> strip (snd p) = snd p)"
proof -
  obtain ps where ps: "length ps = length (file_lines text)"
      "\<forall>acc. nitpick_loop (file_lines text) acc = (None, acc @ ps)"
      "\<forall>i<length (file_lines text). \<forall>rest acc.
         nitpick_loop (file_lines text ! i # rest) acc = nitpick_loop rest (acc @ [ps ! i])"
      "\<forall>p\<in>set ps. fst p \<noteq> [] \<and> snd p \<noteq> [] \<and> strip (fst p) = fst p \<and> strip (snd p) = snd p"
    using well_formed_lines [OF assms(2)] by blast
  have "nitpick_ignore fs = (None, ps)"
    using assms(1) ps(2) by (simp add: nitpick_ignore_def)
  moreover have "\<forall>i<length ps. nitpick_loop [file_lines text ! i] [] = (None, [ps ! i])"
    using ps(1,3) by (simp del: nitpick_loop.simps(2))
  ultimately show ?thesis using ps(1,4) by blast
qed

theorem nitpick_ignore_well_formed_witness:
  "(\<lambda>n. if n = ''nitpick_ignore'' then Some ''py:class  numpy.ndarray\<newline>py:obj a b \<newline>'' else None)
      ''nitpick_ignore'' = Some ''py:class  numpy.ndarray\<newline>py:obj a b \<newline>'' \<and>
   list_all (\<lambda>l. \<not> list_all isspace l \<and> \<not> startswith l ''#'' \<and> list_ex isspace (strip l))
     (file_lines ''py:class  numpy.ndarray\<newline>py:obj a b \<newline>'') \<and>
   (\<exists>ps. nitpick_ignore (\<lambda>n. if n = ''nitpick_ignore'' then Some ''py:class  numpy.ndarray\<newline>py:obj a b \<newline>'' else None) = (None, ps) \<and>
      length ps = length (file_lines ''py:class  numpy.ndarray\<newline>py:obj a b \<newline>'') \<and>
      (\<forall>i<length ps. nitpick_loop [file_lines ''py:class  numpy.ndarray\<newline>py:obj a b \<newline>'' ! i] [] = (None, [ps ! i])) \<and>
      (\<forall>p\<in>set ps. fst p \<noteq> [] \<and> snd p \<noteq> [] \<and> strip (fst p) = fst p \<and> strip (snd p) = snd p)) \<and>
   nitpick_ignore (\<lambda>n. if n = ''nitpick_ignore'' then Some ''py:class  numpy.ndarray\<newline>py:obj a b \<newline>'' else None)
     = (None, [(''py:class'', ''numpy.ndarray''), (''py:obj'', ''a b'')])"
proof -
  let ?t = "''py:class  numpy.ndarray\<newline>py:obj a b \<newline>''"
  let ?f = "\<lambda>n. if n = ''nitpick_ignore'' then Some ?t else None"
  have h1: "?f ''nitpick_ignore'' = Some ?t" by simp
  have h2: "list_all (\<lambda>l. \<not> list_all isspace l \<and> \<not> startswith l ''#'' \<and> list_ex isspace (strip l))
     (file_lines ?t)" by code_simp
  then have h2': "\<forall>l\<in>set (file_lines ?t).
           \<not> list_all isspace l \<and> \<not> startswith l ''#'' \<and> list_ex isspace (strip l)"
    by (simp only: list_all_iff)
  have v: "nitpick_ignore ?f = (None, [(''py:class'', ''numpy.ndarray''), (''py:obj'', ''a b'')])"
    by code_simp
  show ?thesis
    using h1 h2 v nitpick_ignore_well_formed [of ?f ?t, OF h1 h2'] by blast
qed

subsection \<open>Blank lines and comment lines\<close>

lemma isspace_hash: "\<not> isspace CHR ''#''"
  by (simp add: isspace_def)

text \<open>
  Claim C3. A line that is blank (empty, or whitespace only) or starts with \<open>#\<close>
  contributes nothing, wherever it stands: the loop over a list of lines with such a
  line in it returns what it returns without the line, for any lines before and after
  it and any list accumulated so far, whether the run ends normally or in an
  exception. Hence the result for a file is the result for its lines with all blank
  lines and comment lines removed.
\<close>

theorem nitpick_loop_skips_blank_and_comment:
  assumes "list_all isspace l \<or> startswith l ''#''"
  shows "nitpick_loop (before @ l # after) acc = nitpick_loop (before @ after) acc \<and>
         nitpick_loop (filter (\<lambda>l. \<not> (list_all isspace l \<or> startswith l ''#'')) ls) acc'
           = nitpick_loop ls acc'"
proof -
  have "nitpick_loop (before @ l # after) acc = nitpick_loop (before @ after) acc"
    by (simp only: nitpick_loop_append [of before] nitpick_loop_skip [OF assms])
  then show ?thesis
    by (simp only: nitpick_loop_filter)
qed

theorem nitpick_loop_skips_blank_and_comment_witness:
  "(list_all isspace ''# a comment\<newline>'' \<or> startswith ''# a comment\<newline>'' ''#'') \<and>
   nitpick_loop ([''py:class a\<newline>''] @ ''# a comment\<newline>'' # [''py:obj b\<newline>'']) []
     = nitpick_loop ([''py:class a\<newline>''] @ [''py:obj b\<newline>'']) [] \<and>
   nitpick_loop (filter (\<lambda>l. \<not> (list_all isspace l \<or> startswith l ''#''))
       [''  \<newline>'', ''py:class a\<newline>'', ''#x'', ''\<newline>'']) []
     = nitpick_loop [''  \<newline>'', ''py:class a\<newline>'', ''#x'', ''\<newline>''] [] \<and>
   nitpick_loop [''  \<newline>'', ''py:class a\<newline>'', ''#x'', ''\<newline>''] [] = (None, [(''py:class'', ''a'')])"
proof -
  have h: "list_all isspace ''# a comment\<newline>'' \<or> startswith ''# a comment\<newline>'' ''#''"
    by (simp add: startswith_def)
  have v: "nitpick_loop [''  \<newline>'', ''py:class a\<newline>'', ''#x'', ''\<newline>''] [] = (None, [(''py:class'', ''a'')])"
    by code_simp
  show ?thesis
    using h v nitpick_loop_skips_blank_and_comment [OF h, of "[''py:class a\<newline>'']" "[''py:obj b\<newline>'']" "[]"
        "[''  \<newline>'', ''py:class a\<newline>'', ''#x'', ''\<newline>'']" "[]"]
    by blast
qed

subsection \<open>The two fields of a line\<close>



subsection \<open>A missing ignore-list file\<close>

text \<open>
  Claim C5. When the working directory has no file \<^verbatim>\<open>nitpick_ignore\<close>, the block
  raises \<^verbatim>\<open>FileNotFoundError\<close> with the list still empty, and the load of the
  configuration ends in an exception.
\<close>

theorem nitpick_ignore_missing_file:
  assumes "files env ''nitpick_ignore'' = None"
  shows "nitpick_ignore (files env) = (Some (FileNotFoundError ''nitpick_ignore''), []) \<and>
         (\<exists>e. conf_py env = Inl e)"
proof -
  have 1: "nitpick_ignore (files env) = (Some (FileNotFoundError ''nitpick_ignore''), [])"
    using assms by (simp add: nitpick_ignore_def)
  have "\<exists>e. conf_py env = Inl e"
    unfolding conf_py_def Let_def
    by (simp add: 1 split: option.split sum.split prod.split)
  with 1 show ?thesis by simp
qed

theorem nitpick_ignore_missing_file_witness:
  "files \<lparr>modules = (\<lambda>name. Some ''1.0''), modules_parent = Map.empty, tutorials = [],
          tutorials_dir = Map.empty, files = Map.empty\<rparr> ''nitpick_ignore'' = None \<and>
   nitpick_ignore (files \<lparr>modules = (\<lambda>name. Some ''1.0''), modules_parent = Map.empty,
          tutorials = [], tutorials_dir = Map.empty, files = Map.empty\<rparr>)
     = (Some (FileNotFoundError ''nitpick_ignore''), []) \<and>
   (\<exists>e. conf_py \<lparr>modules = (\<lambda>name. Some ''1.0''), modules_parent = Map.empty, tutorials = [],
          tutorials_dir = Map.empty, files = Map.empty\<rparr> = Inl e) \<and>
   conf_py \<lparr>modules = (\<lambda>name. Some ''1.0''), modules_parent = Map.empty, tutorials = [],
          tutorials_dir = Map.empty, files = Map.empty\<rparr>
     = Inl (FileNotFoundError ''nitpick_ignore'')"
proof -
  let ?env = "\<lparr>modules = (\<lambda>name. Some ''1.0''), modules_parent = Map.empty, tutorials = [],
          tutorials_dir = Map.empty, files = Map.empty\<rparr>"
  have h: "files ?env ''nitpick_ignore'' = None" by simp
  have v: "conf_py ?env = Inl (FileNotFoundError ''nitpick_ignore'')"
    by (simp add: conf_py_def prevent_sphinx_circular_imports_bug_def
        workaround_imports_typechecking_def import_weldx_def import_version_def
        copy_tut_files_def glob_def get_intersphinx_mapping_def nitpick_ignore_def)
  show ?thesis
    using h v nitpick_ignore_missing_file [OF h] by (intro conjI) simp_all
qed



subsection \<open>Lines with a single field\<close>

lemma single_field_line:
  assumes "\<not> list_all isspace l" "\<not> startswith l ''#''" "\<not> list_ex isspace (strip l)"
  shows "nitpick_loop (l # rest) acc = (Some ValueError, acc)"
proof -
  have "strip l \<noteq> []" using assms(1) by (simp add: strip_Nil_iff list_all_iff)
  then obtain lead tok tail where sh: "l = lead @ tok @ tail" "\<forall>c\<in>set lead. isspace c"
      "tok \<noteq> []" "\<forall>c\<in>set tok. \<not> isspace c" "tail = [] \<or> isspace (hd tail)"
    using line_shape by blast
  have "strip tail = []"
    using assms(3) separator_tail [OF sh(2-5)] by (simp add: sh(1))
  then show ?thesis
    using nitpick_loop_line [OF sh(2-5)] assms(2) by (simp add: sh(1))
qed

lemma line_cases:
  "(\<forall>rest acc. nitpick_loop (l # rest) acc = nitpick_loop rest acc) \<or>
   (\<forall>rest acc. nitpick_loop (l # rest) acc = (Some ValueError, acc)) \<or>
   (\<exists>d t. (\<forall>rest acc. nitpick_loop (l # rest) acc = nitpick_loop rest (acc @ [(d, t)])) \<and>
           d \<noteq> [] \<and> t \<noteq> [] \<and> strip d = d \<and> strip t = t)"
proof (cases "list_all isspace l \<or> startswith l ''#''")
  case True
  then show ?thesis using nitpick_loop_skip by blast
next
  case skip: False
  show ?thesis
  proof (cases "list_ex isspace (strip l)")
    case True
    then show ?thesis using skip well_formed_step [of l] by blast
  next
    case False
    then show ?thesis using skip single_field_line [of l] by blast
  qed
qed

lemma nitpick_loop_pairs:
  assumes "\<forall>p\<in>set acc. fst p \<noteq> [] \<and> snd p \<noteq> [] \<and> strip (fst p) = fst p \<and> strip (snd p) = snd p"
  shows "\<forall>p\<in>set (snd (nitpick_loop ls acc)).
           fst p \<noteq> [] \<and> snd p \<noteq> [] \<and> strip (fst p) = fst p \<and> strip (snd p) = snd p"
  using assms
proof (induction ls arbitrary: acc)
  case Nil
  then show ?case by simp
next
  case (Cons l ls)
  consider
    (skip) "\<forall>rest acc. nitpick_loop (l # rest) acc = nitpick_loop rest acc"
  | (fail) "\<forall>rest acc. nitpick_loop (l # rest) acc = (Some ValueError, acc)"
  | (pair) d t where "\<forall>rest acc. nitpick_loop (l # rest) acc = nitpick_loop rest (acc @ [(d, t)])"
      "d \<noteq> []" "t \<noteq> []" "strip d = d" "strip t = t"
    using line_cases [of l] by blast
  then show ?case
  proof cases
    case skip
    then show ?thesis using Cons.IH [OF Cons.prems] by (simp del: nitpick_loop.simps)
  next
    case fail
    then show ?thesis using Cons.prems by (simp del: nitpick_loop.simps)
  next
    case pair
    have "\<forall>p\<in>set (acc @ [(d, t)]).
        fst p \<noteq> [] \<and> snd p \<noteq> [] \<and> strip (fst p) = fst p \<and> strip (snd p) = snd p"
      using Cons.prems pair(2-5) by simp
    from Cons.IH [OF this] show ?thesis
      using pair(1) by (simp del: nitpick_loop.simps)
  qed
qed

lemma nitpick_loop_error: "fst (nitpick_loop ls acc) = Some e \<Longrightarrow> e = ValueError"
proof (induction ls arbitrary: acc)
  case Nil
  then show ?case by simp
next
  case (Cons l ls)
  then show ?case
    using line_cases [of l] by (metis fst_conv option.inject)
qed

lemma nitpick_loop_fails:
  assumes "l \<in> set ls" "\<not> list_all isspace l" "\<not> startswith l ''#''"
    "\<not> list_ex isspace (strip l)"
  shows "fst (nitpick_loop ls acc) = Some ValueError"
  using assms(1)
proof (induction ls arbitrary: acc)
  case Nil
  then show ?case by simp
next
  case (Cons x xs)
  show ?case
  proof (cases "x = l")
    case True
    then show ?thesis using single_field_line [OF assms(2-4)] by (simp del: nitpick_loop.simps)
  next
    case False
    then have "l \<in> set xs" using Cons.prems by simp
    then have "\<And>acc. fst (nitpick_loop xs acc) = Some ValueError" by (rule Cons.IH)
    then show ?thesis
      using line_cases [of x] by (metis fst_conv)
  qed
qed

text \<open>
  Claim C2 says that parsing fails on every line without a whitespace separator. A
  comment line is such a line and is skipped: the file whose only line is \<open>#fixme\<close>
  contains no whitespace at all, and reading it raises nothing.
\<close>

theorem nitpick_ignore_comment_without_separator:
  "file_lines ''#fixme'' = [''#fixme''] \<and>
   \<not> list_ex isspace ''#fixme'' \<and>
   nitpick_ignore [''nitpick_ignore'' \<mapsto> ''#fixme''] = (None, [])"
  by (simp add: file_lines_def isspace_def nitpick_ignore_def startswith_def)

text \<open>
  Claim C2, amended. When some line of the file is not blank, does not start with
  \<open>#\<close> and, once trimmed, contains no whitespace, reading the file raises
  \<^verbatim>\<open>ValueError\<close>, and every pair accumulated until then has two non-empty fields:
  no pair with a missing field enters the list.
\<close>

theorem nitpick_ignore_no_separator:
  assumes "fs ''nitpick_ignore'' = Some text"
    and "l \<in> set (file_lines text)"
    and "\<not> list_all isspace l" and "\<not> startswith l ''#''"
    and "\<not> list_ex isspace (strip l)"
  shows "\<exists>ps. nitpick_ignore fs = (Some ValueError, ps) \<and>
           (\<forall>p\<in>set ps. fst p \<noteq> [] \<and> snd p \<noteq> [])"
proof -
  have 1: "nitpick_ignore fs = nitpick_loop (file_lines text) []"
    using assms(1) by (simp add: nitpick_ignore_def)
  have 2: "fst (nitpick_loop (file_lines text) []) = Some ValueError"
    using assms(2-5) by (rule nitpick_loop_fails)
  have 3: "\<forall>p\<in>set (snd (nitpick_loop (file_lines text) [])). fst p \<noteq> [] \<and> snd p \<noteq> []"
    using nitpick_loop_pairs [of "[]" "file_lines text"] by simp
  show ?thesis
    using 2 3 by (simp only: 1) (metis prod.collapse)
qed

theorem nitpick_ignore_no_separator_witness:
  "[''nitpick_ignore'' \<mapsto> ''py:class a\<newline>py:obj\<newline>py:class b\<newline>''] ''nitpick_ignore''
     = Some ''py:class a\<newline>py:obj\<newline>py:class b\<newline>'' \<and>
   ''py:obj\<newline>'' \<in> set (file_lines ''py:class a\<newline>py:obj\<newline>py:class b\<newline>'') \<and>
   \<not> list_all isspace ''py:obj\<newline>'' \<and> \<not> startswith ''py:obj\<newline>'' ''#'' \<and>
   \<not> list_ex isspace (strip ''py:obj\<newline>'') \<and>
   (\<exists>ps. nitpick_ignore [''nitpick_ignore'' \<mapsto> ''py:class a\<newline>py:obj\<newline>py:class b\<newline>'']
            = (Some ValueError, ps) \<and>
          (\<forall>p\<in>set ps. fst p \<noteq> [] \<and> snd p \<noteq> [])) \<and>
   nitpick_ignore [''nitpick_ignore'' \<mapsto> ''py:class a\<newline>py:obj\<newline>py:class b\<newline>'']
     = (Some ValueError, [(''py:class'', ''a'')])"
proof -
  let ?t = "''py:class a\<newline>py:obj\<newline>py:class b\<newline>''"
  let ?fs = "[''nitpick_ignore'' \<mapsto> ?t]"
  have h1: "?fs ''nitpick_ignore'' = Some ?t" by simp
  have h2: "''py:obj\<newline>'' \<in> set (file_lines ?t)" by (simp add: file_lines_def)
  have h3: "\<not> list_all isspace ''py:obj\<newline>''" by (simp add: isspace_def)
  have h4: "\<not> startswith ''py:obj\<newline>'' ''#''" by (simp add: startswith_def)
  have h5: "\<not> list_ex isspace (strip ''py:obj\<newline>'')" by (simp add: strip_def isspace_def)
  have v: "nitpick_ignore ?fs = (Some ValueError, [(''py:class'', ''a'')])"
    by (simp add: nitpick_ignore_def file_lines_def strip_def isspace_def startswith_def)
  show ?thesis
    using h1 h2 h3 h4 h5 v nitpick_ignore_no_separator [of ?fs ?t "''py:obj\<newline>''", OF h1 h2 h3 h4 h5]
    by (intro conjI)
qed

subsection \<open>An indented \<open>#\<close>\<close>

text \<open>
  Claim C9 says that a line with whitespace before its \<open>#\<close> is parsed into the pair
  of \<open>#\<close> and the trimmed rest of the line. The category is the whole first token,
  not its first character: for the line \<open> #fixme later\<close> the pair is
  \<open>(#fixme, later)\<close> and not \<open>(#, fixme later)\<close>.
\<close>

theorem nitpick_ignore_indented_hash_token:
  "nitpick_ignore [''nitpick_ignore'' \<mapsto> '' #fixme later\<newline>'']
     = (None, [(''#fixme'', ''later'')]) \<and>
   nitpick_ignore [''nitpick_ignore'' \<mapsto> '' #fixme later\<newline>'']
     \<noteq> (None, [(''#'', ''fixme later'')])"
  by (simp add: file_lines_def isspace_def nitpick_ignore_def startswith_def strip_def)

text \<open>
  Claim C9, amended. The comment test looks at the untrimmed line. A line that begins
  with whitespace and whose first other character is \<open>#\<close> is neither blank nor a
  comment for the loop. Its category is the first whitespace-delimited token, which
  begins with \<open>#\<close> and is \<open>#\<close> alone exactly when whitespace follows the \<open>#\<close>;
  its target is the trimmed remainder of the line. The line yields this pair unless
  the remainder is all whitespace, in which case the unpacking raises
  \<^verbatim>\<open>ValueError\<close>.
\<close>

theorem nitpick_loop_indented_hash:
  assumes "lead \<noteq> []" and "list_all isspace lead"
    and "list_all (\<lambda>c. \<not> isspace c) tok"
    and "tail = [] \<or> isspace (hd tail)"
  shows "\<not> startswith (lead @ CHR ''#'' # tok @ tail) ''#'' \<and>
         \<not> list_all isspace (lead @ CHR ''#'' # tok @ tail) \<and>
         nitpick_loop ((lead @ CHR ''#'' # tok @ tail) # rest) acc =
           (if list_all isspace tail then (Some ValueError, acc)
            else nitpick_loop rest (acc @ [(CHR ''#'' # tok, strip tail)]))"
proof -
  let ?l = "lead @ CHR ''#'' # tok @ tail"
  have "isspace (hd lead)" using assms(1,2) by (cases lead) simp_all
  then have "hd lead \<noteq> CHR ''#''" using isspace_hash by auto
  then have ns: "\<not> startswith ?l ''#''"
    using assms(1) by (cases lead) (simp_all add: startswith_def)
  have nb: "\<not> list_all isspace ?l" using isspace_hash by simp
  have "nitpick_loop ((lead @ (CHR ''#'' # tok) @ tail) # rest) acc =
           (if strip tail = [] then (Some ValueError, acc)
            else nitpick_loop rest (acc @ [(CHR ''#'' # tok, strip tail)]))"
    using assms(2-4) ns isspace_hash
    by (intro nitpick_loop_line) (simp_all add: list_all_iff)
  then have "nitpick_loop (?l # rest) acc =
           (if list_all isspace tail then (Some ValueError, acc)
            else nitpick_loop rest (acc @ [(CHR ''#'' # tok, strip tail)]))"
    by (simp add: strip_Nil_iff list_all_iff)
  with ns nb show ?thesis by (intro conjI)
qed

theorem nitpick_loop_indented_hash_witness:
  "''  '' \<noteq> [] \<and> list_all isspace ''  '' \<and> list_all (\<lambda>c. \<not> isspace c) [] \<and>
   ('' see below\<newline>'' = [] \<or> isspace (hd '' see below\<newline>'')) \<and>
   \<not> startswith (''  '' @ CHR ''#'' # [] @ '' see below\<newline>'') ''#'' \<and>
   \<not> list_all isspace (''  '' @ CHR ''#'' # [] @ '' see below\<newline>'') \<and>
   nitpick_loop [''  '' @ CHR ''#'' # [] @ '' see below\<newline>''] [] = (None, [(''#'', ''see below'')])"
proof -
  have h1: "''  '' \<noteq> []" by simp
  have h2: "list_all isspace ''  ''" by (simp add: isspace_def)
  have h3: "list_all (\<lambda>c. \<not> isspace c) []" by simp
  have h4: "'' see below\<newline>'' = [] \<or> isspace (hd '' see below\<newline>'')" by (simp add: isspace_def)
  have nb: "\<not> list_all isspace '' see below\<newline>''" by (simp add: isspace_def)
  have st: "strip '' see below\<newline>'' = ''see below''" by (simp add: strip_def isspace_def)
  note t = nitpick_loop_indented_hash [OF h1 h2 h3 h4, of "[]" "[]"]
  from t nb st have "nitpick_loop [''  '' @ CHR ''#'' # [] @ '' see below\<newline>''] [] = (None, [(''#'', ''see below'')])"
    by (simp del: nitpick_loop.simps(2))
  with h1 h2 h3 h4 t show ?thesis by (intro conjI) simp_all
qed

subsection \<open>A single token with trailing whitespace\<close>

text \<open>
  Claim C10 says that every line made of a single token and trailing whitespace makes
  parsing fail. When the token begins with \<open>#\<close> the line is a comment and is
  skipped: reading the file whose only line is \<open>#fixme\<close>, two spaces and a newline
  raises nothing.
\<close>

theorem nitpick_ignore_comment_with_trailing_space:
  "file_lines ''#fixme  \<newline>'' = [''#fixme'' @ ''  \<newline>''] \<and>
   list_all (\<lambda>c. \<not> isspace c) ''#fixme'' \<and> list_all isspace ''  \<newline>'' \<and>
   nitpick_ignore [''nitpick_ignore'' \<mapsto> ''#fixme  \<newline>''] = (None, [])"
  by (simp add: file_lines_def isspace_def nitpick_ignore_def startswith_def)

text \<open>
  Claim C10, amended. A line made of a single token that does not begin with \<open>#\<close>,
  followed by whitespace only, contains whitespace, and still the split returns the
  token as its only field, the unpacking raises \<^verbatim>\<open>ValueError\<close>, and reading a file
  with such a line fails.
\<close>

theorem nitpick_ignore_trailing_whitespace:
  assumes "tok \<noteq> []" and "list_all (\<lambda>c. \<not> isspace c) tok"
    and "trail \<noteq> []" and "list_all isspace trail"
    and "\<not> startswith tok ''#''"
    and "fs ''nitpick_ignore'' = Some text"
    and "tok @ trail \<in> set (file_lines text)"
  shows "list_ex isspace (tok @ trail) \<and>
         split_None (tok @ trail) 1 = [tok] \<and>
         nitpick_loop ((tok @ trail) # rest) acc = (Some ValueError, acc) \<and>
         fst (nitpick_ignore fs) = Some ValueError"
proof -
  let ?l = "tok @ trail"
  have tr: "\<forall>c\<in>set trail. isspace c" using assms(4) by (simp add: list_all_iff)
  have tk: "\<forall>c\<in>set tok. \<not> isspace c" using assms(2) by (simp add: list_all_iff)
  have hdtr: "trail = [] \<or> isspace (hd trail)" using assms(3) tr by simp
  have 1: "list_ex isspace ?l" using assms(3) tr by (cases trail) (auto simp: list_ex_iff)
  have st: "strip trail = []" using tr by (simp add: strip_Nil_iff)
  have 2: "split_None ?l 1 = [tok]"
    using split_None_1 [of "[]" tok trail] assms(1) tk hdtr st by simp
  have ns: "\<not> startswith ?l ''#''"
    using assms(1,5) by (cases tok) (simp_all add: startswith_def)
  have nb: "\<not> list_all isspace ?l" using assms(1) tk by (cases tok) auto
  have "strip ?l = tok"
    using strip_body [of "[]" trail tok] assms(1) tk tr by simp
  then have nsep: "\<not> list_ex isspace (strip ?l)" using tk by (simp add: list_ex_iff)
  have 3: "nitpick_loop (?l # rest) acc = (Some ValueError, acc)"
    using nb ns nsep by (rule single_field_line)
  have "fst (nitpick_loop (file_lines text) []) = Some ValueError"
    using assms(7) nb ns nsep by (rule nitpick_loop_fails)
  then have 4: "fst (nitpick_ignore fs) = Some ValueError"
    using assms(6) by (simp add: nitpick_ignore_def)
  from 1 2 3 4 show ?thesis by (intro conjI)
qed

theorem nitpick_ignore_trailing_whitespace_witness:
  "''py:class'' \<noteq> [] \<and> list_all (\<lambda>c. \<not> isspace c) ''py:class'' \<and>
   ''  \<newline>'' \<noteq> [] \<and> list_all isspace ''  \<newline>'' \<and> \<not> startswith ''py:class'' ''#'' \<and>
   [''nitpick_ignore'' \<mapsto> ''py:obj a\<newline>py:class  \<newline>''] ''nitpick_ignore''
     = Some ''py:obj a\<newline>py:class  \<newline>'' \<and>
   ''py:class'' @ ''  \<newline>'' \<in> set (file_lines ''py:obj a\<newline>py:class  \<newline>'') \<and>
   list_ex isspace (''py:class'' @ ''  \<newline>'') \<and>
   split_None (''py:class'' @ ''  \<newline>'') 1 = [''py:class''] \<and>
   nitpick_loop ((''py:class'' @ ''  \<newline>'') # []) [] = (Some ValueError, []) \<and>
   fst (nitpick_ignore [''nitpick_ignore'' \<mapsto> ''py:obj a\<newline>py:class  \<newline>'']) = Some ValueError"
proof -
  let ?t = "''py:obj a\<newline>py:class  \<newline>''"
  have h1: "''py:class'' \<noteq> []" by simp
  have h2: "list_all (\<lambda>c. \<not> isspace c) ''py:class''" by (simp add: isspace_def)
  have h3: "''  \<newline>'' \<noteq> []" by simp
  have h4: "list_all isspace ''  \<newline>''" by (simp add: isspace_def)
  have h5: "\<not> startswith ''py:class'' ''#''" by (simp add: startswith_def)
  have h6: "[''nitpick_ignore'' \<mapsto> ?t] ''nitpick_ignore'' = Some ?t" by simp
  have h7: "''py:class'' @ ''  \<newline>'' \<in> set (file_lines ?t)" by (simp add: file_lines_def)
  show ?thesis
    using h1 h2 h3 h4 h5 h6 h7
      nitpick_ignore_trailing_whitespace [of "''py:class''" "''  \<newline>''"
        "[''nitpick_ignore'' \<mapsto> ?t]" ?t "[]" "[]", OF h1 h2 h3 h4 h5 h6 h7]
    by (intro conjI) blast+
qed

subsection \<open>Staging\<close>






lemma tutorial_files_eq:
  "fold (\<lambda>ext fs. fs @ glob src ext) [''*.ipynb'', ''*.py''] [] =
     glob src ''*.ipynb'' @ glob src ''*.py''"
  by simp
















subsection \<open>Imports that fail\<close>










subsection \<open>Examples of loads\<close>

text \<open>
  The import of a dotted name fails at the first package that is missing; with the
  packages there it succeeds.
\<close>

lemma import_version_dotted:
  "import_version [''sphinx.ext.autodoc'' \<mapsto> ''7.0''] ''sphinx.ext.autodoc''
     = Inl (ModuleNotFoundError ''sphinx'') \<and>
   import_version [''sphinx'' \<mapsto> ''7.0'', ''sphinx.ext'' \<mapsto> [],
                   ''sphinx.ext.autodoc'' \<mapsto> []] ''sphinx.ext.autodoc'' = Inr []"
  by (simp add: import_version_def)

text \<open>
  A load in which nothing fails: every module is importable, one notebook is staged,
  and the ignore list has a comment and one rule.
\<close>

lemma conf_py_loads:
  "conf_py \<lparr>modules = (\<lambda>name. Some ''1.23.4''), modules_parent = Map.empty,
            tutorials = [(''intro.ipynb'', File ''{}'' 420)], tutorials_dir = Map.empty,
            files = [''nitpick_ignore'' \<mapsto> ''# known\<newline>py:class numpy.ndarray\<newline>'']\<rparr>
   = Inr \<lparr>conf_tutorials_dir = [''intro.ipynb'' \<mapsto> File ''{}'' 420],
           conf_intersphinx_mapping =
             [(''python'', ''https://docs.python.org/3/'', None),
              (''numpy'', ''https://numpy.org/doc/1.23'', None),
              (''pandas'', ''https://pandas.pydata.org/pandas-docs/version/1.23.4/'', None),
              (''xarray'', ''https://docs.xarray.dev/en/v2022.06.0/'', None),
              (''scipy'', ''https://docs.scipy.org/doc/scipy-1.23.4/'', None),
              (''matplotlib'', ''https://matplotlib.org/1.23.4'', None),
              (''pint'', ''https://pint.readthedocs.io/en/1.23.4'', None),
              (''jsonschema'', ''https://python-jsonschema.readthedocs.io/en/stable/'', None),
              (''asdf'', ''https://asdf.readthedocs.io/en/1.23.4/'', None),
              (''networkx'', ''https://networkx.org/documentation/stable/'', None),
              (''IPython'', ''https://ipython.readthedocs.io/en/stable/'', None),
              (''k3d'', ''https://k3d-jupyter.org/'', None)],
           conf_nitpick_ignore = [(''py:class'', ''numpy.ndarray'')]\<rparr>"
  by (simp add: conf_py_def prevent_sphinx_circular_imports_bug_def
        workaround_imports_typechecking_def import_weldx_def import_version_def
        get_intersphinx_mapping_def copy_tut_files_def glob_def shutil_copy_def
        may_read_def nitpick_ignore_def file_lines_def strip_def startswith_def isspace_def)

text \<open>A load that ends in the staging: the only matching entry is a directory.\<close>

lemma conf_py_staging_fails:
  "conf_py \<lparr>modules = (\<lambda>name. Some ''1.23.4''), modules_parent = Map.empty,
            tutorials = [(''old.py'', Directory)], tutorials_dir = Map.empty,
            files = Map.empty\<rparr>
   = Inl IsADirectoryError"
  by (simp add: conf_py_def prevent_sphinx_circular_imports_bug_def
        workaround_imports_typechecking_def import_weldx_def import_version_def
        copy_tut_files_def glob_def shutil_copy_def)

end
